theory Spec2Isabelle
  imports Complex_Main
begin

section \<open>MemoryManager: a tiered agent memory (short-term, long-term, semantic)\<close>

text \<open>
  A shallow embedding of the class \<open>MemoryManager\<close> (core/memory/MemoryManager.ts).
  The manager keeps three handles: an optional Redis client, an optional Supabase client
  and the JavaScript \<open>Map\<close> called \<open>inMemoryCache\<close>. Every method is a function from the
  manager (and what the environment supplies: clock readings and the random suffix of a
  generated id) to its result and the manager afterwards.

  Time. The deletions that the in-process path schedules with \<open>setTimeout\<close> are kept in
  the manager as pending timers, and \<open>run_timers\<close> lets the process's clock advance.
  Expiry inside the Redis server is not represented: a statement about the Redis branch is
  about a run in which no Redis key has expired. The Redis server is taken to answer every
  command; with a server that does not answer, the client rejects each command and
  \<open>remember\<close>, \<open>recall\<close> and \<open>getStats\<close> reject with it, which these definitions do not
  cover.
\<close>

subsection \<open>Strings\<close>

text \<open>\<open>s.startsWith(p)\<close>\<close>

fun startsWith :: "string \<Rightarrow> string \<Rightarrow> bool" where
  "startsWith s [] = True"
| "startsWith [] (p # ps) = False"
| "startsWith (c # cs) (p # ps) = (c = p \<and> startsWith cs ps)"

text \<open>\<open>s.includes(sub)\<close>: \<open>sub\<close> occurs somewhere in \<open>s\<close>.\<close>

fun includes_str :: "string \<Rightarrow> string \<Rightarrow> bool" where
  "includes_str [] sub = (sub = [])"
| "includes_str (c # cs) sub = (startsWith (c # cs) sub \<or> includes_str cs sub)"

text \<open>Decimal rendering of a non-negative number, as a template literal prints \<open>Date.now()\<close>.\<close>

definition digit_char :: "nat \<Rightarrow> char" where
  "digit_char d = ''0123456789'' ! d"

function show_nat :: "nat \<Rightarrow> string" where
  "show_nat n = (if n < 10 then [digit_char n] else show_nat (n div 10) @ [digit_char (n mod 10)])"
  by pat_completeness auto
termination
  by (relation "measure id") auto

subsection \<open>Data model (types.ts)\<close>

datatype memory_type = Transaction | Pattern | Decision | Outcome

text \<open>
  A \<open>timestamp\<close> field holds a \<open>Date\<close> object (milliseconds since the epoch). After
  \<open>JSON.parse(JSON.stringify(m))\<close> it holds the ISO string of that date instead, which
  is a string and no longer has \<open>getTime\<close>.
\<close>

datatype timestamp = Date int | IsoString int

text \<open>
  \<open>content\<close> and \<open>metadata\<close> are payloads the manager does not read: a caller's payload
  is an opaque string here; the two shapes that \<open>learn\<close> builds itself are spelled out.
\<close>

datatype content = Content string | OutcomeContent string bool "string option"

datatype metadata = Metadata string | LearnedMetadata timestamp

record memory =
  m_id :: string
  m_agentId :: string
  m_timestamp :: timestamp
  m_type :: memory_type
  m_content :: content
  m_confidence :: "real option"
  m_embedding :: "real list option"
  m_metadata :: "metadata option"

text \<open>\<open>Omit<Memory, 'id' | 'timestamp'>\<close>, the argument of \<open>remember\<close>.\<close>

record memory_input =
  in_agentId :: string
  in_type :: memory_type
  in_content :: content
  in_confidence :: "real option"
  in_embedding :: "real list option"
  in_metadata :: "metadata option"

text \<open>The \<open>metadata\<close> object of an entry written by \<open>storeSemanticMemory\<close>.\<close>

record semantic_metadata =
  sm_id :: string
  sm_type :: memory_type
  sm_confidence :: "real option"

text \<open>
  \<open>inMemoryCache\<close> is a \<open>Map<string, any>\<close>. Three shapes of value are stored in it:
  a \<open>Memory\<close>, the object \<open>{embedding, metadata}\<close> of the semantic fallback, and the
  counters \<open>{frequency, successes}\<close> of the pattern fallback.
\<close>

datatype entry =
    MemoryV memory
  | SemanticV "real list" semantic_metadata
  | PatternV nat nat

datatype error = TypeError

text \<open>Property reads on a value of type \<open>any\<close>; \<open>None\<close> is \<open>undefined\<close>.\<close>

fun entry_id :: "entry \<Rightarrow> string option" where
  "entry_id (MemoryV m) = Some (m_id m)"
| "entry_id (SemanticV e md) = None"
| "entry_id (PatternV f s) = None"

fun entry_timestamp :: "entry \<Rightarrow> timestamp option" where
  "entry_timestamp (MemoryV m) = Some (m_timestamp m)"
| "entry_timestamp (SemanticV e md) = None"
| "entry_timestamp (PatternV f s) = None"

fun entry_type :: "entry \<Rightarrow> memory_type option" where
  "entry_type (MemoryV m) = Some (m_type m)"
| "entry_type (SemanticV e md) = None"
| "entry_type (PatternV f s) = None"

fun entry_confidence :: "entry \<Rightarrow> real option" where
  "entry_confidence (MemoryV m) = m_confidence m"
| "entry_confidence (SemanticV e md) = None"
| "entry_confidence (PatternV f s) = None"

text \<open>
  \<open>x.timestamp < d\<close> for a \<open>Date\<close> \<open>d\<close>: two dates compare by their time values; an ISO
  string or \<open>undefined\<close> on the left converts to \<open>NaN\<close> and the comparison is false.
\<close>

fun timestamp_before :: "timestamp option \<Rightarrow> int \<Rightarrow> bool" where
  "timestamp_before (Some (Date t)) d = (t < d)"
| "timestamp_before (Some (IsoString t)) d = False"
| "timestamp_before None d = False"

text \<open>\<open>x.timestamp.getTime()\<close>: a \<open>TypeError\<close> unless the field holds a \<open>Date\<close>.\<close>

fun getTime :: "entry \<Rightarrow> error + int" where
  "getTime (MemoryV m) = (case m_timestamp m of Date t \<Rightarrow> Inr t | IsoString t \<Rightarrow> Inl TypeError)"
| "getTime (SemanticV e md) = Inl TypeError"
| "getTime (PatternV f s) = Inl TypeError"

fun time_value :: "entry \<Rightarrow> int" where
  "time_value x = (case getTime x of Inr t \<Rightarrow> t | Inl e \<Rightarrow> 0)"

subsection \<open>Configuration\<close>

datatype short_term_provider = RedisProvider | MemoryProvider

datatype long_term_provider = SupabaseProvider | PostgresqlProvider | SqliteProvider

record memory_config =
  shortTerm_provider :: short_term_provider
  shortTerm_ttl :: nat
  shortTerm_maxItems :: "nat option"
  longTerm :: "long_term_provider option"
  semantic :: bool

record query =
  q_type :: "memory_type option"
  q_limit :: "nat option"
  q_since :: "int option"
  q_sessionId :: "string option"

record criteria =
  olderThan :: "int option"
  c_type :: "memory_type option"
  confidenceLessThan :: "real option"

text \<open>\<open>query.limit || 10\<close> and \<open>if (query.limit)\<close>: the number 0 is falsy, like \<open>undefined\<close>.\<close>

definition limit_or :: "query \<Rightarrow> nat \<Rightarrow> nat" where
  "limit_or q d = (case q_limit q of None \<Rightarrow> d | Some n \<Rightarrow> if n = 0 then d else n)"

definition limit_if_set :: "query \<Rightarrow> nat option" where
  "limit_if_set q = (case q_limit q of None \<Rightarrow> None | Some n \<Rightarrow> if n = 0 then None else Some n)"

subsection \<open>The JavaScript Map\<close>

text \<open>
  A \<open>Map\<close> iterates in insertion order; \<open>set\<close> on a key that is present replaces the
  value where it stands, \<open>delete\<close> removes the entry.
\<close>

fun map_set :: "string \<Rightarrow> 'v \<Rightarrow> (string \<times> 'v) list \<Rightarrow> (string \<times> 'v) list" where
  "map_set k v [] = [(k, v)]"
| "map_set k v ((k', v') # kvs) =
     (if k' = k then (k, v) # kvs else (k', v') # map_set k v kvs)"

definition map_get :: "string \<Rightarrow> (string \<times> 'v) list \<Rightarrow> 'v option" where
  "map_get k kvs = map_of kvs k"

subsection \<open>Redis, as the manager uses it\<close>

text \<open>
  The commands follow the Redis reference: \<open>LPUSH\<close> puts the element at the head;
  \<open>LTRIM key start stop\<close> and \<open>LRANGE key start stop\<close> take both offsets inclusive;
  a missing list is the empty list. String values are the JSON texts the manager wrote;
  the store holds what \<open>JSON.parse\<close> gives back for each.
\<close>

record redis_store =
  r_strings :: "string \<Rightarrow> memory option"
  r_lists :: "string \<Rightarrow> string list"

definition redis_empty :: redis_store where
  "redis_empty = \<lparr>r_strings = (\<lambda>k. None), r_lists = (\<lambda>k. [])\<rparr>"

fun JSON_metadata :: "metadata \<Rightarrow> metadata" where
  "JSON_metadata (Metadata s) = Metadata s"
| "JSON_metadata (LearnedMetadata (Date t)) = LearnedMetadata (IsoString t)"
| "JSON_metadata (LearnedMetadata (IsoString t)) = LearnedMetadata (IsoString t)"

text \<open>\<open>JSON.parse(JSON.stringify(memory))\<close>\<close>

definition JSON_roundtrip :: "memory \<Rightarrow> memory" where
  "JSON_roundtrip m =
     m\<lparr>m_timestamp := (case m_timestamp m of Date t \<Rightarrow> IsoString t | IsoString t \<Rightarrow> IsoString t),
       m_metadata := map_option JSON_metadata (m_metadata m)\<rparr>"

definition setex :: "string \<Rightarrow> nat \<Rightarrow> memory \<Rightarrow> redis_store \<Rightarrow> redis_store" where
  "setex key ttl m r = r\<lparr>r_strings := (r_strings r)(key := Some (JSON_roundtrip m))\<rparr>"

definition lpush :: "string \<Rightarrow> string \<Rightarrow> redis_store \<Rightarrow> redis_store" where
  "lpush key v r = r\<lparr>r_lists := (r_lists r)(key := v # r_lists r key)\<rparr>"

definition ltrim :: "string \<Rightarrow> nat \<Rightarrow> nat \<Rightarrow> redis_store \<Rightarrow> redis_store" where
  "ltrim key start stop r =
     r\<lparr>r_lists := (r_lists r)(key := take (Suc stop - start) (drop start (r_lists r key)))\<rparr>"

definition lrange :: "string \<Rightarrow> nat \<Rightarrow> nat \<Rightarrow> redis_store \<Rightarrow> string list" where
  "lrange key start stop r = take (Suc stop - start) (drop start (r_lists r key))"

definition llen :: "string \<Rightarrow> redis_store \<Rightarrow> nat" where
  "llen key r = length (r_lists r key)"

definition redis_get :: "string \<Rightarrow> redis_store \<Rightarrow> memory option" where
  "redis_get key r = r_strings r key"

subsection \<open>Supabase, as the manager uses it\<close>

text \<open>
  Two tables, with the schema of the repository's README: \<open>agent_memories\<close> (primary key
  \<open>id\<close>) and \<open>agent_patterns\<close> (primary key \<open>agent_id, pattern_signature\<close>; the columns
  \<open>frequency\<close>, \<open>success_rate\<close> and \<open>confidence\<close> default to 0). Filters chained on one
  request are a conjunction. A request to a backend that is not available comes back
  with \<open>error\<close> set and changes nothing.
\<close>

record memory_row =
  row_id :: string
  row_agent_id :: string
  row_memory_type :: memory_type
  row_content :: content
  row_confidence :: "real option"
  row_embedding :: "real list option"
  row_metadata :: "metadata option"
  row_created_at :: int

record pattern_row =
  pr_agent_id :: string
  pr_pattern_signature :: string
  pr_frequency :: nat
  pr_success_rate :: real
  pr_confidence :: real
  pr_last_updated :: int

record supabase_db =
  agent_memories :: "memory_row list"
  agent_patterns :: "pattern_row list"
  available :: bool

datatype backend_error = BackendError

definition row_matches_select :: "string \<Rightarrow> memory_type option \<Rightarrow> int option \<Rightarrow> memory_row \<Rightarrow> bool" where
  "row_matches_select agentId ty since r =
     (row_agent_id r = agentId
      \<and> (case ty of None \<Rightarrow> True | Some t \<Rightarrow> row_memory_type r = t)
      \<and> (case since of None \<Rightarrow> True | Some d \<Rightarrow> d \<le> row_created_at r))"

text \<open>\<open>from('agent_memories').select('*').eq(...).eq(...).gte(...).limit(...)\<close>\<close>

definition sb_select_memories ::
  "string \<Rightarrow> memory_type option \<Rightarrow> int option \<Rightarrow> nat option \<Rightarrow> supabase_db
     \<Rightarrow> backend_error + memory_row list" where
  "sb_select_memories agentId ty since lim_opt db =
     (if available db
      then Inr (let rows = filter (row_matches_select agentId ty since) (agent_memories db)
                in case lim_opt of None \<Rightarrow> rows | Some n \<Rightarrow> take n rows)
      else Inl BackendError)"

text \<open>
  \<open>insert\<close>: a second row with the same primary key is refused, and so is an embedding
  whose length is not the 1536 of the column \<open>embedding VECTOR(1536)\<close>; no embedding is
  \<open>NULL\<close> and accepted.
\<close>

definition sb_insert_memory :: "memory_row \<Rightarrow> supabase_db \<Rightarrow> backend_error + supabase_db" where
  "sb_insert_memory r db =
     (if available db \<and> row_id r \<notin> set (map row_id (agent_memories db))
         \<and> (case row_embedding r of None \<Rightarrow> True | Some e \<Rightarrow> length e = 1536)
      then Inr (db\<lparr>agent_memories := agent_memories db @ [r]\<rparr>)
      else Inl BackendError)"

text \<open>
  The filters of the delete request in \<open>forget\<close>: \<open>eq('agent_id')\<close>, then \<open>lt('created_at')\<close>,
  \<open>eq('memory_type')\<close> and \<open>lt('confidence')\<close> for each criterion that was added. In SQL a
  \<open>NULL\<close> confidence is not less than anything.
\<close>

definition row_matches_delete ::
  "string \<Rightarrow> int option \<Rightarrow> memory_type option \<Rightarrow> real option \<Rightarrow> memory_row \<Rightarrow> bool" where
  "row_matches_delete agentId older ty conf r =
     (row_agent_id r = agentId
      \<and> (case older of None \<Rightarrow> True | Some d \<Rightarrow> row_created_at r < d)
      \<and> (case ty of None \<Rightarrow> True | Some t \<Rightarrow> row_memory_type r = t)
      \<and> (case conf of None \<Rightarrow> True
          | Some c \<Rightarrow> (case row_confidence r of None \<Rightarrow> False | Some x \<Rightarrow> x < c)))"

text \<open>\<open>delete()...select('id')\<close>: removes the matching rows and returns them.\<close>

definition sb_delete_memories ::
  "string \<Rightarrow> int option \<Rightarrow> memory_type option \<Rightarrow> real option \<Rightarrow> supabase_db
     \<Rightarrow> backend_error + (supabase_db \<times> memory_row list)" where
  "sb_delete_memories agentId older ty conf db =
     (if available db
      then Inr (db\<lparr>agent_memories :=
                      filter (\<lambda>r. \<not> row_matches_delete agentId older ty conf r) (agent_memories db)\<rparr>,
                filter (row_matches_delete agentId older ty conf) (agent_memories db))
      else Inl BackendError)"

text \<open>
  \<open>upsert(values, {onConflict: 'agent_id,pattern_signature'})\<close>: a row with that key
  takes the submitted columns (\<open>frequency\<close>, \<open>success_rate\<close>, \<open>last_updated\<close>) as they are;
  without such a row a new one is inserted, \<open>confidence\<close> at its default.
\<close>

fun upsert_pattern_row ::
  "string \<Rightarrow> string \<Rightarrow> nat \<Rightarrow> real \<Rightarrow> int \<Rightarrow> pattern_row list \<Rightarrow> pattern_row list" where
  "upsert_pattern_row a sig f sr upd [] =
     [\<lparr>pr_agent_id = a, pr_pattern_signature = sig, pr_frequency = f, pr_success_rate = sr,
       pr_confidence = 0, pr_last_updated = upd\<rparr>]"
| "upsert_pattern_row a sig f sr upd (r # rs) =
     (if pr_agent_id r = a \<and> pr_pattern_signature r = sig
      then r\<lparr>pr_frequency := f, pr_success_rate := sr, pr_last_updated := upd\<rparr> # rs
      else r # upsert_pattern_row a sig f sr upd rs)"

definition sb_upsert_pattern ::
  "string \<Rightarrow> string \<Rightarrow> nat \<Rightarrow> real \<Rightarrow> int \<Rightarrow> supabase_db \<Rightarrow> backend_error + supabase_db" where
  "sb_upsert_pattern a sig f sr upd db =
     (if available db
      then Inr (db\<lparr>agent_patterns := upsert_pattern_row a sig f sr upd (agent_patterns db)\<rparr>)
      else Inl BackendError)"

text \<open>\<open>select('*', {count: 'exact', head: true}).eq('agent_id', agentId)\<close>; \<open>None\<close> is \<open>null\<close>.\<close>

definition sb_count_memories :: "string \<Rightarrow> supabase_db \<Rightarrow> nat option" where
  "sb_count_memories agentId db =
     (if available db
      then Some (length (filter (\<lambda>r. row_agent_id r = agentId) (agent_memories db)))
      else None)"

text \<open>\<open>from('agent_patterns').select('confidence').eq('agent_id', agentId)\<close>\<close>

definition sb_select_pattern_confidence :: "string \<Rightarrow> supabase_db \<Rightarrow> real list option" where
  "sb_select_pattern_confidence agentId db =
     (if available db
      then Some (map pr_confidence (filter (\<lambda>r. pr_agent_id r = agentId) (agent_patterns db)))
      else None)"

subsection \<open>The manager\<close>

record manager =
  config :: memory_config
  supabase :: "supabase_db option"
  redis :: "redis_store option"
  inMemoryCache :: "(string \<times> entry) list"
  timers :: "(nat \<times> string) list"

text \<open>
  \<open>timers\<close> holds the callbacks scheduled with \<open>setTimeout\<close> and not yet run: for each
  the milliseconds left and the cache key it will delete.

  The constructor with \<open>initialize\<close>. \<open>server\<close> is the Redis server behind the connection
  string (one that answers); \<open>project\<close> is the Supabase project the environment's credentials
  lead to, \<open>None\<close> when \<open>SUPABASE_URL\<close> or \<open>SUPABASE_ANON_KEY\<close> is not set.
\<close>

definition initialize :: "memory_config \<Rightarrow> redis_store \<Rightarrow> supabase_db option \<Rightarrow> manager" where
  "initialize cfg server project =
     \<lparr>config = cfg,
      supabase = (if longTerm cfg = Some SupabaseProvider then project else None),
      redis = (if shortTerm_provider cfg = RedisProvider then Some server else None),
      inMemoryCache = [], timers = []\<rparr>"

text \<open>
  \<open>setTimeout(callback, ms)\<close> in Node: a delay below 1 or above 2147483647 is set to 1.
\<close>

definition timeout_delay :: "nat \<Rightarrow> nat" where
  "timeout_delay ms = (if ms < 1 \<or> 2147483647 < ms then 1 else ms)"

text \<open>
  The clock of the process advances by \<open>d\<close> milliseconds with the event loop free: every
  timer with at most \<open>d\<close> milliseconds left runs and deletes its key from the cache; the
  others have \<open>d\<close> milliseconds less to wait.
\<close>

definition run_timers :: "nat \<Rightarrow> manager \<Rightarrow> manager" where
  "run_timers d st =
     st\<lparr>inMemoryCache :=
          filter (\<lambda>kv. fst kv \<notin> set (map snd (filter (\<lambda>t. fst t \<le> d) (timers st))))
            (inMemoryCache st),
        timers := map (\<lambda>t. (fst t - d, snd t)) (filter (\<lambda>t. d < fst t) (timers st))\<rparr>"

text \<open>
  \<open>generateId\<close>: \<open>now\<close> is \<open>Date.now()\<close> and \<open>rnd\<close> is
  \<open>Math.random().toString(36).substr(2, 9)\<close>, at most nine characters of \<open>0-9a-z\<close>.
\<close>

definition generateId :: "nat \<Rightarrow> string \<Rightarrow> string" where
  "generateId now rnd = ''mem_'' @ show_nat now @ ''_'' @ rnd"

text \<open>What one call of \<open>remember\<close> reads from the environment.\<close>

record remember_env =
  e_idNow :: nat
  e_random :: string
  e_now :: int

definition storeShortTerm :: "memory \<Rightarrow> manager \<Rightarrow> manager" where
  "storeShortTerm m st =
     (let key = ''memory:'' @ m_agentId m @ '':'' @ m_id m;
          ttl = shortTerm_ttl (config st)
      in case redis st of
           Some r \<Rightarrow>
             (let r1 = setex key ttl m r;
                  listKey = ''memories:'' @ m_agentId m;
                  r2 = lpush listKey (m_id m) r1;
                  r3 = ltrim listKey 0
                         (case shortTerm_maxItems (config st) of
                            None \<Rightarrow> 100 | Some n \<Rightarrow> if n = 0 then 100 else n) r2
              in st\<lparr>redis := Some r3\<rparr>)
         | None \<Rightarrow>
             st\<lparr>inMemoryCache := map_set key (MemoryV m) (inMemoryCache st),
                timers := timers st @ [(timeout_delay (ttl * 1000), key)]\<rparr>)"

definition memory_to_row :: "memory \<Rightarrow> int \<Rightarrow> memory_row" where
  "memory_to_row m created =
     \<lparr>row_id = m_id m, row_agent_id = m_agentId m, row_memory_type = m_type m,
      row_content = m_content m, row_confidence = m_confidence m,
      row_embedding = m_embedding m, row_metadata = m_metadata m, row_created_at = created\<rparr>"

definition row_to_memory :: "memory_row \<Rightarrow> memory" where
  "row_to_memory r =
     \<lparr>m_id = row_id r, m_agentId = row_agent_id r, m_timestamp = Date (row_created_at r),
      m_type = row_memory_type r, m_content = row_content r, m_confidence = row_confidence r,
      m_embedding = row_embedding r, m_metadata = row_metadata r\<rparr>"

definition storeLongTerm :: "memory \<Rightarrow> manager \<Rightarrow> manager" where
  "storeLongTerm m st =
     (case supabase st of
        None \<Rightarrow>
          st\<lparr>inMemoryCache :=
               map_set (''longterm:'' @ m_agentId m @ '':'' @ m_id m) (MemoryV m) (inMemoryCache st)\<rparr>
      | Some db \<Rightarrow>
          (case sb_insert_memory
                  (memory_to_row m (case m_timestamp m of Date t \<Rightarrow> t | IsoString t \<Rightarrow> t)) db of
             Inr db' \<Rightarrow> st\<lparr>supabase := Some db'\<rparr>
           | Inl e \<Rightarrow> st))"

definition storeSemanticMemory :: "memory \<Rightarrow> manager \<Rightarrow> manager" where
  "storeSemanticMemory m st =
     (case m_embedding m of
        None \<Rightarrow> st
      | Some e \<Rightarrow>
          if 0 < length e
          then st\<lparr>inMemoryCache :=
                    map_set (''semantic:'' @ m_agentId m @ '':'' @ m_id m)
                      (SemanticV e \<lparr>sm_id = m_id m, sm_type = m_type m,
                                     sm_confidence = m_confidence m\<rparr>)
                      (inMemoryCache st)\<rparr>
          else st)"

definition fullMemory :: "string \<Rightarrow> memory_input \<Rightarrow> remember_env \<Rightarrow> memory" where
  "fullMemory agentId memory env =
     \<lparr>m_id = generateId (e_idNow env) (e_random env), m_agentId = agentId,
      m_timestamp = Date (e_now env), m_type = in_type memory, m_content = in_content memory,
      m_confidence = in_confidence memory, m_embedding = in_embedding memory,
      m_metadata = in_metadata memory\<rparr>"

definition remember :: "manager \<Rightarrow> string \<Rightarrow> memory_input \<Rightarrow> remember_env \<Rightarrow> manager \<times> string" where
  "remember st agentId memory env =
     (let full = fullMemory agentId memory env;
          st1 = storeShortTerm full st;
          st2 = (if longTerm (config st) \<noteq> None then storeLongTerm full st1 else st1);
          st3 = (if semantic (config st) \<and> in_embedding memory \<noteq> None
                 then storeSemanticMemory full st2 else st2)
      in (st3, m_id full))"

subsection \<open>Reading: \<open>recall\<close>\<close>

definition matchesQuery :: "entry \<Rightarrow> query \<Rightarrow> bool" where
  "matchesQuery memory q =
     (if (case q_type q of None \<Rightarrow> False | Some t \<Rightarrow> entry_type memory \<noteq> Some t) then False
      else if (case q_since q of None \<Rightarrow> False
               | Some d \<Rightarrow> timestamp_before (entry_timestamp memory) d) then False
      else True)"

text \<open>The values of the cache entries whose key starts with \<open>p\<close> and that match the query.\<close>

definition cache_scan :: "string \<Rightarrow> query \<Rightarrow> (string \<times> entry) list \<Rightarrow> entry list" where
  "cache_scan p q kvs = map snd (filter (\<lambda>kv. startsWith (fst kv) p \<and> matchesQuery (snd kv) q) kvs)"

text \<open>The loop over \<open>memoryIds\<close> in the Redis branch of \<open>queryShortTerm\<close>.\<close>

fun redis_scan :: "redis_store \<Rightarrow> string \<Rightarrow> query \<Rightarrow> string list \<Rightarrow> entry list" where
  "redis_scan r agentId q [] = []"
| "redis_scan r agentId q (i # ids) =
     (case redis_get (''memory:'' @ agentId @ '':'' @ i) r of
        None \<Rightarrow> redis_scan r agentId q ids
      | Some memory \<Rightarrow>
          if matchesQuery (MemoryV memory) q
          then MemoryV memory # redis_scan r agentId q ids
          else redis_scan r agentId q ids)"

definition queryShortTerm :: "manager \<Rightarrow> string \<Rightarrow> query \<Rightarrow> entry list" where
  "queryShortTerm st agentId q =
     (case redis st of
        Some r \<Rightarrow> redis_scan r agentId q (lrange (''memories:'' @ agentId) 0 (limit_or q 10) r)
      | None \<Rightarrow> cache_scan (''memory:'' @ agentId @ '':'') q (inMemoryCache st))"

definition queryLongTerm :: "manager \<Rightarrow> string \<Rightarrow> query \<Rightarrow> entry list" where
  "queryLongTerm st agentId q =
     (case supabase st of
        None \<Rightarrow> cache_scan (''longterm:'' @ agentId @ '':'') q (inMemoryCache st)
      | Some db \<Rightarrow>
          (case sb_select_memories agentId (q_type q) (q_since q) (limit_if_set q) db of
             Inl e \<Rightarrow> []
           | Inr rows \<Rightarrow> map (\<lambda>row. MemoryV (row_to_memory row)) rows))"

text \<open>
  \<open>value.metadata.type\<close> in \<open>querySemanticMemory\<close>. An entry of the semantic fallback has
  a \<open>metadata\<close> object with a \<open>type\<close>; counters have no \<open>metadata\<close>, nor has a memory stored
  without one, and reading \<open>type\<close> of \<open>undefined\<close> throws. The metadata of a memory is
  taken to carry no \<open>type\<close> of its own.
\<close>

fun metadata_type :: "entry \<Rightarrow> error + memory_type option" where
  "metadata_type (SemanticV e md) = Inr (Some (sm_type md))"
| "metadata_type (MemoryV m) = (case m_metadata m of None \<Rightarrow> Inl TypeError | Some x \<Rightarrow> Inr None)"
| "metadata_type (PatternV f s) = Inl TypeError"

fun semantic_scan :: "string \<Rightarrow> (string \<times> entry) list \<Rightarrow> error + entry list" where
  "semantic_scan p [] = Inr []"
| "semantic_scan p (kv # kvs) =
     (if startsWith (fst kv) p
      then (case metadata_type (snd kv) of
              Inl e \<Rightarrow> Inl e
            | Inr t \<Rightarrow>
                (case semantic_scan p kvs of
                   Inl e \<Rightarrow> Inl e
                 | Inr ms \<Rightarrow> Inr (if t = Some Pattern then snd kv # ms else ms)))
      else semantic_scan p kvs)"

definition querySemanticMemory :: "manager \<Rightarrow> string \<Rightarrow> query \<Rightarrow> error + entry list" where
  "querySemanticMemory st agentId q = semantic_scan (''semantic:'' @ agentId @ '':'') (inMemoryCache st)"

text \<open>\<open>deduplicateMemories\<close>: \<open>filter\<close> with the set \<open>seen\<close> of the ids met so far.\<close>

fun dedup_from :: "string option set \<Rightarrow> entry list \<Rightarrow> entry list" where
  "dedup_from seen [] = []"
| "dedup_from seen (memory # ms) =
     (if entry_id memory \<in> seen then dedup_from seen ms
      else memory # dedup_from (insert (entry_id memory) seen) ms)"

definition deduplicateMemories :: "entry list \<Rightarrow> entry list" where
  "deduplicateMemories memories = dedup_from {} memories"

text \<open>
  \<open>sort((a, b) => b.timestamp.getTime() - a.timestamp.getTime())\<close>. With fewer than two
  elements the comparator is not called. With two or more, every element takes part in
  a comparison, so a single element whose \<open>timestamp\<close> is not a \<open>Date\<close> makes the call
  throw. Otherwise the result is in descending order of time, and equal times keep their
  order (the sort is stable).
\<close>

fun has_time :: "entry \<Rightarrow> bool" where
  "has_time x = (case getTime x of Inr t \<Rightarrow> True | Inl e \<Rightarrow> False)"

definition sort_newest_first :: "entry list \<Rightarrow> error + entry list" where
  "sort_newest_first xs =
     (if length xs < 2 then Inr xs
      else if list_all has_time xs then Inr (sort_key (\<lambda>x. - time_value x) xs)
      else Inl TypeError)"

definition recall :: "manager \<Rightarrow> string \<Rightarrow> query \<Rightarrow> error + entry list" where
  "recall st agentId q =
     (let shortTermMemories = queryShortTerm st agentId q;
          memories = (if length shortTermMemories < limit_or q 10 \<and> longTerm (config st) \<noteq> None
                      then shortTermMemories @ queryLongTerm st agentId q
                      else shortTermMemories)
      in case (if q_type q = Some Pattern \<and> semantic (config st)
               then querySemanticMemory st agentId q else Inr []) of
           Inl e \<Rightarrow> Inl e
         | Inr semanticMemories \<Rightarrow>
             sort_newest_first (deduplicateMemories (memories @ semanticMemories)))"

subsection \<open>Learning: \<open>learn\<close> and \<open>updatePattern\<close>\<close>

record outcome =
  transactionId :: string
  success :: bool
  pattern :: "string option"
  o_confidence :: real

text \<open>
  \<open>learn\<close> reads the clock twice more than \<open>remember\<close>: for \<open>metadata.timestamp\<close> and for
  \<open>last_updated\<close>.
\<close>

record learn_env = remember_env +
  e_metaNow :: int
  e_patternNow :: int

text \<open>
  The in-process branch: \<open>get(key) || {frequency: 0, successes: 0}\<close>, two increments,
  \<open>set\<close>. Keys starting with \<open>pattern:\<close> are written only here, so the value found is a
  pair of counters; any other value is left as it is.
\<close>

definition updatePattern :: "manager \<Rightarrow> string \<Rightarrow> string \<Rightarrow> bool \<Rightarrow> int \<Rightarrow> manager" where
  "updatePattern st agentId pat succ now =
     (let key = ''pattern:'' @ agentId @ '':'' @ pat
      in case supabase st of
           Some db \<Rightarrow>
             (case sb_upsert_pattern agentId pat 1 (if succ then 1 else 0) now db of
                Inr db' \<Rightarrow> st\<lparr>supabase := Some db'\<rparr>
              | Inl e \<Rightarrow> st)
         | None \<Rightarrow>
             (case map_get key (inMemoryCache st) of
                None \<Rightarrow>
                  st\<lparr>inMemoryCache :=
                       map_set key (PatternV 1 (if succ then 1 else 0)) (inMemoryCache st)\<rparr>
              | Some (PatternV f s) \<Rightarrow>
                  st\<lparr>inMemoryCache :=
                       map_set key (PatternV (Suc f) (if succ then Suc s else s)) (inMemoryCache st)\<rparr>
              | Some other \<Rightarrow> st))"

definition learn :: "manager \<Rightarrow> string \<Rightarrow> outcome \<Rightarrow> learn_env \<Rightarrow> manager" where
  "learn st agentId oc env =
     (let st1 = fst (remember st agentId
                       \<lparr>in_agentId = agentId, in_type = Pattern,
                        in_content = OutcomeContent (transactionId oc) (success oc) (pattern oc),
                        in_confidence = Some (o_confidence oc), in_embedding = None,
                        in_metadata = Some (LearnedMetadata (Date (e_metaNow env)))\<rparr>
                       (remember_env.truncate env))
      in case pattern oc of
           None \<Rightarrow> st1
         | Some p \<Rightarrow> if p = [] then st1 else updatePattern st1 agentId p (success oc) (e_patternNow env))"

subsection \<open>Forgetting: \<open>forget\<close>\<close>

text \<open>
  \<open>matchesForgetCriteria\<close>: three tests, the first that holds answers \<open>true\<close>. A
  \<open>confidenceLessThan\<close> of 0 is falsy and its test is skipped.
\<close>

definition matchesForgetCriteria :: "entry \<Rightarrow> criteria \<Rightarrow> bool" where
  "matchesForgetCriteria memory c =
     (if (case olderThan c of None \<Rightarrow> False
          | Some d \<Rightarrow> timestamp_before (entry_timestamp memory) d) then True
      else if (case c_type c of None \<Rightarrow> False | Some t \<Rightarrow> entry_type memory = Some t) then True
      else if (case confidenceLessThan c of None \<Rightarrow> False
               | Some x \<Rightarrow> x \<noteq> 0 \<and>
                   (case entry_confidence memory of None \<Rightarrow> False | Some y \<Rightarrow> y < x)) then True
      else False)"

text \<open>The first pass of \<open>forget\<close>: the delete request to Supabase, and its count.\<close>

definition forget_longterm :: "supabase_db option \<Rightarrow> string \<Rightarrow> criteria \<Rightarrow> supabase_db option \<times> nat" where
  "forget_longterm sb agentId c =
     (case sb of
        None \<Rightarrow> (None, 0)
      | Some db \<Rightarrow>
          (case sb_delete_memories agentId (olderThan c) (c_type c) (confidenceLessThan c) db of
             Inl e \<Rightarrow> (Some db, 0)
           | Inr res \<Rightarrow> (Some (fst res), length (snd res))))"

text \<open>The second pass: the loop over the cache, deleting and counting.\<close>

fun forget_cache :: "string \<Rightarrow> criteria \<Rightarrow> (string \<times> entry) list \<Rightarrow> (string \<times> entry) list \<times> nat" where
  "forget_cache agentId c [] = ([], 0)"
| "forget_cache agentId c (kv # kvs) =
     (let rest = forget_cache agentId c kvs
      in if includes_str (fst kv) agentId \<and> matchesForgetCriteria (snd kv) c
         then (fst rest, Suc (snd rest))
         else (kv # fst rest, snd rest))"

definition forget :: "manager \<Rightarrow> string \<Rightarrow> criteria \<Rightarrow> manager \<times> nat" where
  "forget st agentId c =
     (let lt = forget_longterm (supabase st) agentId c;
          ch = forget_cache agentId c (inMemoryCache st)
      in (st\<lparr>supabase := fst lt, inMemoryCache := fst ch\<rparr>, snd lt + snd ch))"

subsection \<open>Statistics: \<open>getStats\<close>\<close>

text \<open>
  \<open>avgConfidence\<close> is the number 0 when no pattern row is read. Otherwise it is what
  \<open>data.reduce((sum, p) => sum + p.confidence, 0) / data.length\<close> gives in double
  precision; that arithmetic is not carried out here, the field records its operands.
\<close>

datatype average = Zero | MeanOfDoubles "real list"

record stats =
  shortTermCount :: nat
  longTermCount :: nat
  patterns :: nat
  avgConfidence :: average

definition getStats :: "manager \<Rightarrow> string \<Rightarrow> stats" where
  "getStats st agentId =
     (let s0 = \<lparr>shortTermCount = 0, longTermCount = 0, patterns = 0, avgConfidence = Zero\<rparr>;
          s1 = (case redis st of
                  Some r \<Rightarrow> s0\<lparr>shortTermCount := llen (''memories:'' @ agentId) r\<rparr>
                | None \<Rightarrow> s0)
      in case supabase st of
           None \<Rightarrow> s1
         | Some db \<Rightarrow>
             (let s2 = s1\<lparr>longTermCount :=
                            (case sb_count_memories agentId db of None \<Rightarrow> 0 | Some n \<Rightarrow> n)\<rparr>
              in case sb_select_pattern_confidence agentId db of
                   None \<Rightarrow> s2
                 | Some data \<Rightarrow>
                     if 0 < length data
                     then s2\<lparr>patterns := length data,
                             avgConfidence := MeanOfDoubles data\<rparr>
                     else s2))"

subsection \<open>Runs\<close>

text \<open>A sequence of \<open>remember\<close> calls, each with its agent, its payload and its environment.\<close>

fun remember_all :: "manager \<Rightarrow> (string \<times> memory_input \<times> remember_env) list \<Rightarrow> manager" where
  "remember_all st [] = st"
| "remember_all st (c # cs) = remember_all (fst (remember st (fst c) (fst (snd c)) (snd (snd c)))) cs"

definition call_id :: "string \<times> memory_input \<times> remember_env \<Rightarrow> string" where
  "call_id c = generateId (e_idNow (snd (snd c))) (e_random (snd (snd c)))"

text \<open>The memory that a call of \<open>remember\<close> builds.\<close>

definition full_of :: "string \<times> memory_input \<times> remember_env \<Rightarrow> memory" where
  "full_of c = fullMemory (fst c) (fst (snd c)) (snd (snd c))"

subsection \<open>Orderings of a result list\<close>

definition not_earlier :: "entry \<Rightarrow> entry \<Rightarrow> bool" where
  "not_earlier x y = (has_time x \<and> has_time y \<and> time_value y \<le> time_value x)"

definition later :: "entry \<Rightarrow> entry \<Rightarrow> bool" where
  "later x y = (has_time x \<and> has_time y \<and> time_value y < time_value x)"

text \<open>Every element is at least as recent as (is more recent than) all that follow it.\<close>

definition newest_first :: "entry list \<Rightarrow> bool" where
  "newest_first xs = sorted_wrt not_earlier xs"

definition strictly_newest_first :: "entry list \<Rightarrow> bool" where
  "strictly_newest_first xs = sorted_wrt later xs"

subsection \<open>Scenarios\<close>

text \<open>The configuration of the repository's tests: in-process short-term tier only.\<close>

definition test_config :: memory_config where
  "test_config =
     \<lparr>shortTerm_provider = MemoryProvider, shortTerm_ttl = 3600, shortTerm_maxItems = Some 100,
      longTerm = None, semantic = False\<rparr>"

definition semantic_config :: memory_config where
  "semantic_config = test_config\<lparr>semantic := True\<rparr>"

definition redis_config :: "nat \<Rightarrow> memory_config" where
  "redis_config n = test_config\<lparr>shortTerm_provider := RedisProvider, shortTerm_maxItems := Some n\<rparr>"

definition supabase_config :: memory_config where
  "supabase_config = test_config\<lparr>longTerm := Some SupabaseProvider\<rparr>"

definition empty_project :: supabase_db where
  "empty_project = \<lparr>agent_memories = [], agent_patterns = [], available = True\<rparr>"

definition no_filter :: query where
  "no_filter = \<lparr>q_type = None, q_limit = None, q_since = None, q_sessionId = None\<rparr>"

definition payload :: "string \<Rightarrow> memory_type \<Rightarrow> real \<Rightarrow> memory_input" where
  "payload a ty c =
     \<lparr>in_agentId = a, in_type = ty, in_content = Content ''data'', in_confidence = Some c,
      in_embedding = None, in_metadata = None\<rparr>"

definition env_at :: "nat \<Rightarrow> string \<Rightarrow> remember_env" where
  "env_at n rnd = \<lparr>e_idNow = n, e_random = rnd, e_now = int n\<rparr>"

text \<open>One pattern memory with an embedding, stored with a semantic tier configured.\<close>

definition pattern_with_embedding :: manager where
  "pattern_with_embedding =
     fst (remember (initialize semantic_config redis_empty None) ''a''
            ((payload ''a'' Pattern 0.9)\<lparr>in_embedding := Some [0.1]\<rparr>) (env_at 1 ''x''))"

text \<open>One memory stored with the configuration of the tests.\<close>

definition one_memory :: manager where
  "one_memory =
     fst (remember (initialize test_config redis_empty None) ''test-agent-001''
            (payload ''test-agent-001'' Transaction 1) (env_at 1 ''x''))"

text \<open>Three memories stored through Redis with \<open>maxItems = 2\<close>.\<close>

definition three_writes :: manager where
  "three_writes =
     remember_all (initialize (redis_config 2) redis_empty None)
       [(''a'', payload ''a'' Transaction 1, env_at 1 ''x''),
        (''a'', payload ''a'' Transaction 1, env_at 2 ''x''),
        (''a'', payload ''a'' Transaction 1, env_at 3 ''x'')]"

text \<open>A memory of agent \<open>agent-10\<close>, and criteria that a call for \<open>agent-1\<close> passes.\<close>

definition other_agent :: manager where
  "other_agent =
     fst (remember (initialize test_config redis_empty None) ''agent-10''
            (payload ''agent-10'' Transaction 0.3) (env_at 1 ''x''))"

definition low_confidence :: criteria where
  "low_confidence = \<lparr>olderThan = None, c_type = None, confidenceLessThan = Some 0.5\<rparr>"

text \<open>Two successful learning events for the same signature, with Supabase available.\<close>

definition greeting :: outcome where
  "greeting = \<lparr>transactionId = ''t1'', success = True, pattern = Some ''greeting'', o_confidence = 0.9\<rparr>"

definition learn_env_at :: "nat \<Rightarrow> learn_env" where
  "learn_env_at n =
     \<lparr>e_idNow = n, e_random = ''x'', e_now = int n, e_metaNow = int n, e_patternNow = int n\<rparr>"

definition learned_twice :: manager where
  "learned_twice =
     learn (learn (initialize supabase_config redis_empty (Some empty_project)) ''a'' greeting
              (learn_env_at 1)) ''a'' greeting (learn_env_at 2)"

definition learned_twice_in_process :: manager where
  "learned_twice_in_process =
     learn (learn (initialize test_config redis_empty None) ''a'' greeting
              (learn_env_at 1)) ''a'' greeting (learn_env_at 2)"

text \<open>
  One memory of confidence 0.3 and type \<open>transaction\<close>, stored in the cache and in
  Supabase, and the criteria \<open>{type: decision, confidenceLessThan: 0.5}\<close>.
\<close>

definition mixed_criteria :: criteria where
  "mixed_criteria = \<lparr>olderThan = None, c_type = Some Decision, confidenceLessThan = Some 0.5\<rparr>"

definition stored_in_both :: manager where
  "stored_in_both =
     fst (remember (initialize supabase_config redis_empty (Some empty_project)) ''a''
            (payload ''a'' Transaction 0.3) (env_at 1 ''x''))"

text \<open>Two memories stored within one millisecond, and two stored one after the other.\<close>

definition same_millisecond :: manager where
  "same_millisecond =
     remember_all (initialize test_config redis_empty None)
       [(''a'', payload ''a'' Transaction 1, \<lparr>e_idNow = 5, e_random = ''x'', e_now = 5\<rparr>),
        (''a'', payload ''a'' Decision 0.9, \<lparr>e_idNow = 5, e_random = ''y'', e_now = 5\<rparr>)]"

definition two_memories :: manager where
  "two_memories =
     remember_all (initialize test_config redis_empty None)
       [(''a'', payload ''a'' Transaction 1, env_at 1 ''x''),
        (''a'', payload ''a'' Decision 0.9, env_at 2 ''y'')]"

text \<open>Two memories stored through Redis with \<open>maxItems = 100\<close>: nothing is trimmed.\<close>

definition redis_two_writes :: manager where
  "redis_two_writes =
     remember_all (initialize (redis_config 100) redis_empty None)
       [(''a'', payload ''a'' Transaction 1, env_at 1 ''x''),
        (''a'', payload ''a'' Decision 0.9, env_at 2 ''y'')]"

text \<open>
  Writes of agent \<open>a\<close> at the given times: twelve of them through Redis; nine and ten
  of them in process, with a Supabase project that already holds one older row of \<open>a\<close>.
\<close>

definition writes :: "nat list \<Rightarrow> (string \<times> memory_input \<times> remember_env) list" where
  "writes ns = map (\<lambda>i. (''a'', payload ''a'' Transaction 1, env_at i ''x'')) ns"

definition twelve_writes :: manager where
  "twelve_writes =
     remember_all (initialize (redis_config 100) redis_empty None)
       (writes [1, 2, 3, 4, 5, 6, 7, 8, 9, 10, 11, 12])"

definition old_row :: memory_row where
  "old_row =
     \<lparr>row_id = ''old_1'', row_agent_id = ''a'', row_memory_type = Outcome,
      row_content = Content ''old'', row_confidence = None, row_embedding = None,
      row_metadata = None, row_created_at = 0\<rparr>"

definition old_project :: supabase_db where
  "old_project = \<lparr>agent_memories = [old_row], agent_patterns = [], available = True\<rparr>"

definition nine_and_old :: manager where
  "nine_and_old =
     remember_all (initialize supabase_config redis_empty (Some old_project))
       (writes [1, 2, 3, 4, 5, 6, 7, 8, 9])"

definition ten_and_old :: manager where
  "ten_and_old =
     remember_all (initialize supabase_config redis_empty (Some old_project))
       (writes [1, 2, 3, 4, 5, 6, 7, 8, 9, 10])"

text \<open>One memory stored in process with a time-to-live of 3000000 seconds.\<close>

definition long_ttl :: manager where
  "long_ttl =
     fst (remember (initialize (test_config\<lparr>shortTerm_ttl := 3000000\<rparr>) redis_empty None) ''a''
            (payload ''a'' Transaction 1) (env_at 1 ''x''))"

text \<open>
  Three calls by two agents, with a long-term tier configured and no Supabase credentials,
  so that each memory is in the cache twice (short-term and long-term fallback).
\<close>

definition three_calls :: "(string \<times> memory_input \<times> remember_env) list" where
  "three_calls =
     [(''a'', payload ''a'' Transaction 1, env_at 1 ''x''),
      (''b'', payload ''b'' Decision 0.5, env_at 2 ''y''),
      (''a'', payload ''a'' Pattern 0.9, env_at 3 ''z'')]"

definition two_agents :: manager where
  "two_agents = remember_all (initialize supabase_config redis_empty None) three_calls"

section \<open>Properties\<close>

lemmas manager_defs =
  initialize_def remember_def fullMemory_def generateId_def storeShortTerm_def
  storeLongTerm_def storeSemanticMemory_def recall_def queryShortTerm_def queryLongTerm_def
  querySemanticMemory_def cache_scan_def matchesQuery_def deduplicateMemories_def
  sort_newest_first_def limit_or_def limit_if_set_def digit_char_def Let_def learn_def
  updatePattern_def forget_def forget_longterm_def matchesForgetCriteria_def getStats_def
  map_get_def remember_env.truncate_def

lemmas redis_defs =
  redis_empty_def setex_def lpush_def ltrim_def lrange_def llen_def redis_get_def
  JSON_roundtrip_def

lemmas supabase_defs =
  sb_select_memories_def row_matches_select_def sb_insert_memory_def row_matches_delete_def
  sb_delete_memories_def sb_upsert_pattern_def sb_count_memories_def
  sb_select_pattern_confidence_def memory_to_row_def row_to_memory_def

lemmas scenario_defs =
  test_config_def semantic_config_def redis_config_def supabase_config_def empty_project_def
  no_filter_def payload_def env_at_def

subsection \<open>A limit of 0\<close>

lemma matchesQuery_limit: "matchesQuery v (q\<lparr>q_limit := l\<rparr>) = matchesQuery v q"
  by (simp add: matchesQuery_def)

lemma cache_scan_limit: "cache_scan p (q\<lparr>q_limit := l\<rparr>) kvs = cache_scan p q kvs"
  by (simp add: cache_scan_def matchesQuery_limit)

lemma redis_scan_limit: "redis_scan r a (q\<lparr>q_limit := l\<rparr>) ids = redis_scan r a q ids"
  by (induction ids) (simp_all add: matchesQuery_limit split: option.splits)

lemma limit_or_zero: "limit_or (q\<lparr>q_limit := Some 0\<rparr>) d = limit_or (q\<lparr>q_limit := None\<rparr>) d"
  by (simp add: limit_or_def)

lemma limit_if_set_zero:
  "limit_if_set (q\<lparr>q_limit := Some 0\<rparr>) = limit_if_set (q\<lparr>q_limit := None\<rparr>)"
  by (simp add: limit_if_set_def)

lemma queryShortTerm_limit_zero:
  "queryShortTerm st a (q\<lparr>q_limit := Some 0\<rparr>) = queryShortTerm st a (q\<lparr>q_limit := None\<rparr>)"
  by (simp add: queryShortTerm_def cache_scan_limit redis_scan_limit limit_or_zero
      split: option.splits)

lemma queryLongTerm_limit_zero:
  "queryLongTerm st a (q\<lparr>q_limit := Some 0\<rparr>) = queryLongTerm st a (q\<lparr>q_limit := None\<rparr>)"
  by (simp add: queryLongTerm_def cache_scan_limit limit_if_set_zero split: option.splits)

text \<open>
  C10. A \<open>limit\<close> of 0 is read as no limit. For every manager, agent and remaining
  filter: the short-term query with \<open>limit: 0\<close> reads the offsets 0 to 10 of the Redis
  index (the default 10) or scans the cache; the long-term query passes no limit to
  Supabase; \<open>recall\<close> consults the long-term tier exactly when the short-term tier gave
  fewer than 10 results; and what \<open>recall\<close> returns is what it returns without a limit.
\<close>

theorem recall_limit_zero_is_default:
  "queryShortTerm st agentId (q\<lparr>q_limit := Some 0\<rparr>) =
     (case redis st of
        Some r \<Rightarrow> redis_scan r agentId q (lrange (''memories:'' @ agentId) 0 10 r)
      | None \<Rightarrow> cache_scan (''memory:'' @ agentId @ '':'') q (inMemoryCache st))
   \<and> queryLongTerm st agentId (q\<lparr>q_limit := Some 0\<rparr>) =
     (case supabase st of
        None \<Rightarrow> cache_scan (''longterm:'' @ agentId @ '':'') q (inMemoryCache st)
      | Some db \<Rightarrow>
          (case sb_select_memories agentId (q_type q) (q_since q) None db of
             Inl e \<Rightarrow> []
           | Inr rows \<Rightarrow> map (\<lambda>row. MemoryV (row_to_memory row)) rows))
   \<and> recall st agentId (q\<lparr>q_limit := Some 0\<rparr>) =
     (case (if q_type q = Some Pattern \<and> semantic (config st)
            then querySemanticMemory st agentId q else Inr []) of
        Inl e \<Rightarrow> Inl e
      | Inr semanticMemories \<Rightarrow>
          sort_newest_first (deduplicateMemories
            ((if length (queryShortTerm st agentId (q\<lparr>q_limit := Some 0\<rparr>)) < 10
                 \<and> longTerm (config st) \<noteq> None
              then queryShortTerm st agentId (q\<lparr>q_limit := Some 0\<rparr>)
                   @ queryLongTerm st agentId (q\<lparr>q_limit := Some 0\<rparr>)
              else queryShortTerm st agentId (q\<lparr>q_limit := Some 0\<rparr>))
             @ semanticMemories)))
   \<and> recall st agentId (q\<lparr>q_limit := Some 0\<rparr>) = recall st agentId (q\<lparr>q_limit := None\<rparr>)"
proof -
  have short: "queryShortTerm st agentId (q\<lparr>q_limit := Some 0\<rparr>) =
     (case redis st of
        Some r \<Rightarrow> redis_scan r agentId q (lrange (''memories:'' @ agentId) 0 10 r)
      | None \<Rightarrow> cache_scan (''memory:'' @ agentId @ '':'') q (inMemoryCache st))"
    by (simp add: queryShortTerm_def cache_scan_limit redis_scan_limit limit_or_def
        split: option.splits)
  have long: "queryLongTerm st agentId (q\<lparr>q_limit := Some 0\<rparr>) =
     (case supabase st of
        None \<Rightarrow> cache_scan (''longterm:'' @ agentId @ '':'') q (inMemoryCache st)
      | Some db \<Rightarrow>
          (case sb_select_memories agentId (q_type q) (q_since q) None db of
             Inl e \<Rightarrow> []
           | Inr rows \<Rightarrow> map (\<lambda>row. MemoryV (row_to_memory row)) rows))"
    by (simp add: queryLongTerm_def cache_scan_limit limit_if_set_def split: option.splits)
  have sem: "querySemanticMemory st agentId (q\<lparr>q_limit := Some 0\<rparr>) = querySemanticMemory st agentId q"
    by (simp add: querySemanticMemory_def)
  have rec: "recall st agentId (q\<lparr>q_limit := Some 0\<rparr>) =
     (case (if q_type q = Some Pattern \<and> semantic (config st)
            then querySemanticMemory st agentId q else Inr []) of
        Inl e \<Rightarrow> Inl e
      | Inr semanticMemories \<Rightarrow>
          sort_newest_first (deduplicateMemories
            ((if length (queryShortTerm st agentId (q\<lparr>q_limit := Some 0\<rparr>)) < 10
                 \<and> longTerm (config st) \<noteq> None
              then queryShortTerm st agentId (q\<lparr>q_limit := Some 0\<rparr>)
                   @ queryLongTerm st agentId (q\<lparr>q_limit := Some 0\<rparr>)
              else queryShortTerm st agentId (q\<lparr>q_limit := Some 0\<rparr>))
             @ semanticMemories)))"
    by (auto simp: recall_def Let_def sem limit_or_def)
  have same: "recall st agentId (q\<lparr>q_limit := Some 0\<rparr>) = recall st agentId (q\<lparr>q_limit := None\<rparr>)"
    unfolding recall_def queryShortTerm_limit_zero queryLongTerm_limit_zero limit_or_zero
    by (simp add: querySemanticMemory_def)
  from short long rec same show ?thesis by blast
qed

text \<open>
  At concrete inputs: with two memories in process, \<open>recall\<close> with \<open>limit: 0\<close> returns
  both, as without a limit, and not an empty list. Of twelve ids in the Redis index the
  short-term query with \<open>limit: 0\<close> reads eleven. With nine memories in the short-term
  tier the long-term tier is consulted and gives all its rows, the older row included;
  with ten it is not consulted.
\<close>

theorem recall_limit_zero_witness:
  "recall two_memories ''a'' (no_filter\<lparr>q_limit := Some 0\<rparr>) = recall two_memories ''a'' no_filter
   \<and> map_sum id (map entry_id) (recall two_memories ''a'' (no_filter\<lparr>q_limit := Some 0\<rparr>))
       = Inr [Some ''mem_2_y'', Some ''mem_1_x'']
   \<and> length (queryShortTerm twelve_writes ''a'' (no_filter\<lparr>q_limit := Some 0\<rparr>)) = 11
   \<and> map_sum id (map entry_id) (recall nine_and_old ''a'' (no_filter\<lparr>q_limit := Some 0\<rparr>))
       = Inr [Some ''mem_9_x'', Some ''mem_8_x'', Some ''mem_7_x'', Some ''mem_6_x'',
              Some ''mem_5_x'', Some ''mem_4_x'', Some ''mem_3_x'', Some ''mem_2_x'',
              Some ''mem_1_x'', Some ''old_1'']
   \<and> map_sum id (map entry_id) (recall ten_and_old ''a'' (no_filter\<lparr>q_limit := Some 0\<rparr>))
       = Inr [Some ''mem_10_x'', Some ''mem_9_x'', Some ''mem_8_x'', Some ''mem_7_x'',
              Some ''mem_6_x'', Some ''mem_5_x'', Some ''mem_4_x'', Some ''mem_3_x'',
              Some ''mem_2_x'', Some ''mem_1_x'']"
proof -
  have nf: "no_filter\<lparr>q_limit := None\<rparr> = no_filter"
    by (simp add: no_filter_def)
  have same: "recall two_memories ''a'' (no_filter\<lparr>q_limit := Some 0\<rparr>) = recall two_memories ''a'' no_filter"
    using recall_limit_zero_is_default [of two_memories "''a''" no_filter]
    unfolding nf by blast
  have two: "map_sum id (map entry_id) (recall two_memories ''a'' no_filter)
       = Inr [Some ''mem_2_y'', Some ''mem_1_x'']"
    by (simp add: two_memories_def manager_defs scenario_defs)
  have twelve: "length (queryShortTerm twelve_writes ''a'' (no_filter\<lparr>q_limit := Some 0\<rparr>)) = 11"
    by (simp add: twelve_writes_def writes_def manager_defs redis_defs scenario_defs)
  have nine: "map_sum id (map entry_id) (recall nine_and_old ''a'' (no_filter\<lparr>q_limit := Some 0\<rparr>))
       = Inr [Some ''mem_9_x'', Some ''mem_8_x'', Some ''mem_7_x'', Some ''mem_6_x'',
              Some ''mem_5_x'', Some ''mem_4_x'', Some ''mem_3_x'', Some ''mem_2_x'',
              Some ''mem_1_x'', Some ''old_1'']"
    by (simp add: nine_and_old_def old_project_def old_row_def writes_def manager_defs
        supabase_defs scenario_defs)
  have ten: "map_sum id (map entry_id) (recall ten_and_old ''a'' (no_filter\<lparr>q_limit := Some 0\<rparr>))
       = Inr [Some ''mem_10_x'', Some ''mem_9_x'', Some ''mem_8_x'', Some ''mem_7_x'',
              Some ''mem_6_x'', Some ''mem_5_x'', Some ''mem_4_x'', Some ''mem_3_x'',
              Some ''mem_2_x'', Some ''mem_1_x'']"
    by (simp add: ten_and_old_def old_project_def old_row_def writes_def manager_defs
        supabase_defs scenario_defs)
  from same two twelve nine ten show ?thesis by simp
qed

subsection \<open>Where the code leaves its description\<close>

text \<open>
  C2. \<open>recall\<close> is to return a list for every agent and filter, pattern queries with a
  semantic tier included. It does not: the semantic fallback returns its stored
  \<open>{embedding, metadata}\<close> objects, which have no \<open>timestamp\<close>, and the final sort calls
  \<open>getTime\<close> on it. After one \<open>remember\<close> of a pattern memory with an embedding, the
  pattern query of the same agent throws.
\<close>

theorem recall_raises_on_semantic_entry:
  "recall pattern_with_embedding ''a'' (no_filter\<lparr>q_type := Some Pattern\<rparr>) = Inl TypeError"
  by (simp add: pattern_with_embedding_def manager_defs scenario_defs)

text \<open>
  C5. The memory stored in \<open>pattern_with_embedding\<close> is visible in the short-term tier
  and in the semantic tier under one id. Deduplication reads \<open>id\<close> at the top of each
  object, where the semantic entry has none, so both stay in the list (and the sort then
  throws): the pattern query yields no list with one entry of that id.
\<close>

theorem semantic_entry_not_deduplicated:
  "map entry_id (queryShortTerm pattern_with_embedding ''a'' (no_filter\<lparr>q_type := Some Pattern\<rparr>))
     = [Some ''mem_1_x'']
   \<and> map_sum id (map (\<lambda>x. case x of SemanticV e md \<Rightarrow> Some (sm_id md) | _ \<Rightarrow> None))
        (querySemanticMemory pattern_with_embedding ''a'' (no_filter\<lparr>q_type := Some Pattern\<rparr>))
     = Inr [Some ''mem_1_x'']
   \<and> length (deduplicateMemories
        (queryShortTerm pattern_with_embedding ''a'' (no_filter\<lparr>q_type := Some Pattern\<rparr>)
         @ (case querySemanticMemory pattern_with_embedding ''a'' (no_filter\<lparr>q_type := Some Pattern\<rparr>)
            of Inr ms \<Rightarrow> ms | Inl e \<Rightarrow> []))) = 2
   \<and> (case recall pattern_with_embedding ''a'' (no_filter\<lparr>q_type := Some Pattern\<rparr>) of
         Inr xs \<Rightarrow> False | Inl e \<Rightarrow> True)"
  by (simp add: pattern_with_embedding_def manager_defs scenario_defs)

text \<open>
  C8. \<open>shortTermCount\<close> is to be the number of memories in the agent's short-term tier
  in both modes. Without Redis \<open>getStats\<close> never counts: in the setting of the repository's
  own test, one stored memory is visible to the short-term query and \<open>shortTermCount\<close> is 0.
\<close>

theorem getStats_shortTermCount_zero_in_process:
  "shortTermCount (getStats one_memory ''test-agent-001'') = 0
   \<and> length (queryShortTerm one_memory ''test-agent-001'' no_filter) = 1"
  by (simp add: one_memory_def manager_defs scenario_defs)

text \<open>
  C3. With \<open>maxItems = 2\<close>, three writes are to leave at most two memories in the
  short-term tier. \<open>ltrim(listKey, 0, maxItems)\<close> keeps the offsets 0 to \<open>maxItems\<close>, both
  included: the index holds three ids and the short-term query returns three memories.
\<close>

theorem short_term_index_exceeds_maxItems:
  "shortTerm_maxItems (config three_writes) = Some 2
   \<and> map_option (llen ''memories:a'') (redis three_writes) = Some 3
   \<and> length (queryShortTerm three_writes ''a'' no_filter) = 3"
  by (simp add: three_writes_def manager_defs redis_defs scenario_defs)

text \<open>
  C7. \<open>forget\<close> for one agent is to leave the memories of every other agent as they are.
  The cache pass selects keys with \<open>key.includes(agentId)\<close>: the key of a memory of
  \<open>agent-10\<close> contains \<open>agent-1\<close>, so \<open>forget\<close> for \<open>agent-1\<close> deletes it, and \<open>recall\<close> for
  \<open>agent-10\<close> returns one memory before and none after.
\<close>

theorem forget_deletes_other_agents_memory:
  "map_sum id length (recall other_agent ''agent-10'' no_filter) = Inr 1
   \<and> snd (forget other_agent ''agent-1'' low_confidence) = 1
   \<and> recall (fst (forget other_agent ''agent-1'' low_confidence)) ''agent-10'' no_filter = Inr []"
  by (simp add: other_agent_def low_confidence_def manager_defs scenario_defs)

text \<open>
  C9. After two successful learning events for one signature the aggregate is to have
  frequency 2 and two successes. With Supabase the second \<open>upsert\<close> submits
  \<open>frequency: 1\<close> again and the row takes it: frequency 1 and success rate 1. (The
  in-process branch counts: \<open>learned_twice_in_process\<close> holds the counters 2 and 2.)
\<close>

theorem supabase_pattern_row_overwritten:
  "map_option (\<lambda>db. map (\<lambda>r. (pr_pattern_signature r, pr_frequency r, pr_success_rate r))
                        (agent_patterns db)) (supabase learned_twice)
     = Some [(''greeting'', 1, 1)]
   \<and> map_get ''pattern:a:greeting'' (inMemoryCache learned_twice_in_process) = Some (PatternV 2 2)"
  by (simp add: learned_twice_def learned_twice_in_process_def greeting_def learn_env_at_def
      manager_defs supabase_defs scenario_defs)

text \<open>
  C1. Every memory stored for an agent is to come back, once and unchanged, from an
  unfiltered \<open>recall\<close> with a large limit. Through Redis it does not, even when nothing
  has been trimmed or has expired: the memory is stored as JSON text, \<open>JSON.parse\<close> gives
  its \<open>timestamp\<close> back as a string, and with two memories the final sort calls
  \<open>getTime\<close> on a string and throws. Both memories are in the short-term tier, and
  \<open>recall\<close> returns no list. The same two calls in process come back as the claim says.
\<close>

theorem recall_raises_after_redis_writes:
  "shortTerm_maxItems (config redis_two_writes) = Some 100
   \<and> map entry_id (queryShortTerm redis_two_writes ''a'' (no_filter\<lparr>q_limit := Some 1000\<rparr>))
       = [Some ''mem_2_y'', Some ''mem_1_x'']
   \<and> map entry_timestamp (queryShortTerm redis_two_writes ''a'' (no_filter\<lparr>q_limit := Some 1000\<rparr>))
       = [Some (IsoString 2), Some (IsoString 1)]
   \<and> recall redis_two_writes ''a'' (no_filter\<lparr>q_limit := Some 1000\<rparr>) = Inl TypeError
   \<and> map_sum id (map entry_id) (recall two_memories ''a'' (no_filter\<lparr>q_limit := Some 1000\<rparr>))
       = Inr [Some ''mem_2_y'', Some ''mem_1_x'']"
  by (simp add: redis_two_writes_def two_memories_def manager_defs redis_defs scenario_defs)

subsection \<open>The two passes of \<open>forget\<close>\<close>

lemma forget_cache_fst:
  "fst (forget_cache a c kvs) =
     filter (\<lambda>kv. \<not> (includes_str (fst kv) a \<and> matchesForgetCriteria (snd kv) c)) kvs"
  by (induction kvs) (simp_all add: Let_def)

lemma forget_cache_snd:
  "snd (forget_cache a c kvs) =
     length (filter (\<lambda>kv. includes_str (fst kv) a \<and> matchesForgetCriteria (snd kv) c) kvs)"
  by (induction kvs) (simp_all add: Let_def)

lemma length_filter_complement:
  "length (filter P xs) = length xs - length (filter (\<lambda>x. \<not> P x) xs)"
  using sum_length_filter_compl [of P xs] by simp

lemma forget_cache_count:
  "snd (forget_cache a c kvs) = length kvs - length (fst (forget_cache a c kvs))"
  unfolding forget_cache_fst forget_cache_snd by (rule length_filter_complement)

lemma forget_longterm_available:
  assumes "available db"
  shows "forget_longterm (Some db) a c =
           (Some (db\<lparr>agent_memories :=
                     filter (\<lambda>r. \<not> row_matches_delete a (olderThan c) (c_type c) (confidenceLessThan c) r)
                       (agent_memories db)\<rparr>),
            length (agent_memories db)
              - length (filter (\<lambda>r. \<not> row_matches_delete a (olderThan c) (c_type c) (confidenceLessThan c) r)
                         (agent_memories db)))"
  using assms
    length_filter_complement [of "row_matches_delete a (olderThan c) (c_type c) (confidenceLessThan c)"
      "agent_memories db"]
  by (simp add: forget_longterm_def sb_delete_memories_def)

text \<open>The cache pass takes an entry as soon as one of the three tests holds.\<close>

lemma matchesForgetCriteria_any:
  "matchesForgetCriteria v c \<longleftrightarrow>
     (\<exists>d. olderThan c = Some d \<and> timestamp_before (entry_timestamp v) d)
     \<or> (\<exists>t. c_type c = Some t \<and> entry_type v = Some t)
     \<or> (\<exists>x y. confidenceLessThan c = Some x \<and> x \<noteq> 0 \<and> entry_confidence v = Some y \<and> y < x)"
  by (auto simp: matchesForgetCriteria_def split: option.splits)

text \<open>
  C4. A record of confidence 0.3 and type \<open>transaction\<close>, and the criteria
  \<open>{type: decision, confidenceLessThan: 0.5}\<close>. The cache test accepts the record (its
  confidence is below 0.5), the filters of the Supabase delete request reject it (its type
  is not \<open>decision\<close>). So \<open>forget\<close> removes the record from the cache, wherever its key
  contains the agent id, and leaves the row in Supabase; and the number it returns is the
  number of rows that left the table plus the number of entries that left the cache.
\<close>

theorem forget_asymmetry:
  assumes mem: "m_type m = Transaction" "m_confidence m = Some 0.3"
    and row: "row_memory_type r = Transaction" "row_confidence r = Some 0.3"
    and crit: "c = \<lparr>olderThan = None, c_type = Some Decision, confidenceLessThan = Some 0.5\<rparr>"
    and db: "supabase st = Some db" "available db" "r \<in> set (agent_memories db)"
    and cache: "(k, MemoryV m) \<in> set (inMemoryCache st)" "includes_str k agentId"
  shows "matchesForgetCriteria (MemoryV m) c
     \<and> \<not> row_matches_delete agentId (olderThan c) (c_type c) (confidenceLessThan c) r
     \<and> (k, MemoryV m) \<notin> set (inMemoryCache (fst (forget st agentId c)))
     \<and> (case supabase (fst (forget st agentId c)) of
          None \<Rightarrow> False
        | Some db' \<Rightarrow>
            r \<in> set (agent_memories db')
            \<and> snd (forget st agentId c)
                = (length (agent_memories db) - length (agent_memories db'))
                  + (length (inMemoryCache st) - length (inMemoryCache (fst (forget st agentId c)))))"
proof -
  have m: "matchesForgetCriteria (MemoryV m) c"
    using mem crit by (simp add: matchesForgetCriteria_def)
  have r: "\<not> row_matches_delete agentId (olderThan c) (c_type c) (confidenceLessThan c) r"
    using row crit by (simp add: row_matches_delete_def)
  have gone: "(k, MemoryV m) \<notin> set (inMemoryCache (fst (forget st agentId c)))"
    using m cache by (simp add: forget_def Let_def forget_cache_fst)
  have rest: "(case supabase (fst (forget st agentId c)) of
          None \<Rightarrow> False
        | Some db' \<Rightarrow>
            r \<in> set (agent_memories db')
            \<and> snd (forget st agentId c)
                = (length (agent_memories db) - length (agent_memories db'))
                  + (length (inMemoryCache st) - length (inMemoryCache (fst (forget st agentId c)))))"
    using r db by (simp add: forget_def Let_def forget_longterm_available forget_cache_count)
  from m r gone rest show ?thesis by blast
qed

text \<open>
  The hypotheses of C4 hold after one \<open>remember\<close> with Supabase and no Redis: the memory
  is in the cache and in the table; \<open>forget\<close> empties the cache, keeps the row, returns 1.
\<close>

theorem forget_asymmetry_witness:
  "inMemoryCache stored_in_both \<noteq> []
   \<and> inMemoryCache (fst (forget stored_in_both ''a'' mixed_criteria)) = []
   \<and> map_option (\<lambda>db. map row_id (agent_memories db))
        (supabase (fst (forget stored_in_both ''a'' mixed_criteria))) = Some [''mem_1_x'']
   \<and> snd (forget stored_in_both ''a'' mixed_criteria) = 1"
  using forget_asymmetry [of "fullMemory ''a'' (payload ''a'' Transaction 0.3) (env_at 1 ''x'')"
      "memory_to_row (fullMemory ''a'' (payload ''a'' Transaction 0.3) (env_at 1 ''x'')) 1"
      mixed_criteria stored_in_both
      "empty_project\<lparr>agent_memories :=
         [memory_to_row (fullMemory ''a'' (payload ''a'' Transaction 0.3) (env_at 1 ''x'')) 1]\<rparr>"
      "''memory:a:mem_1_x''" "''a''"]
  by (simp add: stored_in_both_def mixed_criteria_def manager_defs supabase_defs scenario_defs
      forget_cache_fst)

subsection \<open>The order of the result\<close>

text \<open>
  C6, as stated: the result is in strictly descending order of \<open>timestamp\<close>. It is not:
  two memories stored within the same millisecond have equal timestamps and both are
  returned, one after the other.
\<close>

theorem recall_equal_timestamps:
  "(case recall same_millisecond ''a'' no_filter of
      Inr xs \<Rightarrow> map entry_id xs = [Some ''mem_5_x'', Some ''mem_5_y'']
                \<and> map getTime xs = [Inr 5, Inr 5]
                \<and> \<not> strictly_newest_first xs
    | Inl e \<Rightarrow> False)"
  by (simp add: same_millisecond_def manager_defs scenario_defs strictly_newest_first_def later_def)

lemma sort_newest_first_sorted:
  assumes "sort_newest_first ys = Inr xs"
  shows "newest_first xs"
proof (cases "length ys < 2")
  case True
  with assms have "xs = ys" by (simp add: sort_newest_first_def)
  with True show ?thesis
    by (cases xs) (auto simp: newest_first_def numeral_2_eq_2)
next
  case False
  with assms have all: "list_all has_time ys" and xs: "xs = sort_key (\<lambda>x. - time_value x) ys"
    by (simp_all add: sort_newest_first_def split: if_splits)
  have "sorted (map (\<lambda>x. - time_value x) xs)"
    unfolding xs by (rule sorted_sort_key)
  then have "sorted_wrt (\<lambda>x y. - time_value x \<le> - time_value y) xs"
    by (simp add: sorted_map)
  moreover have "\<forall>x \<in> set xs. has_time x"
    using all unfolding xs by (simp add: list_all_iff)
  ultimately have "sorted_wrt not_earlier xs"
    by (auto simp: not_earlier_def elim!: sorted_wrt_mono_rel [rotated])
  then show ?thesis by (simp add: newest_first_def)
qed

text \<open>
  C6, amended: whenever \<open>recall\<close> returns a list, the list is in descending order of
  \<open>timestamp\<close>, equal timestamps allowed: every element carries a time and is at least as
  recent as each element after it.
\<close>

theorem recall_newest_first:
  assumes "recall st agentId q = Inr xs"
  shows "newest_first xs"
  using assms
  by (auto simp: recall_def Let_def split: sum.splits if_splits intro: sort_newest_first_sorted)

text \<open>Two memories stored at times 1 and 2 come back newest first.\<close>

theorem recall_newest_first_witness:
  "map_sum id (map entry_id) (recall two_memories ''a'' no_filter)
     = Inr [Some ''mem_2_y'', Some ''mem_1_x'']
   \<and> newest_first (projr (recall two_memories ''a'' no_filter))"
  using recall_newest_first [of two_memories "''a''" no_filter
      "projr (recall two_memories ''a'' no_filter)"]
  by (simp add: two_memories_def manager_defs scenario_defs)

subsection \<open>Keys, the cache as a map, deduplication\<close>

lemma startsWith_iff: "startsWith s p \<longleftrightarrow> (\<exists>t. s = p @ t)"
  by (induction s p rule: startsWith.induct) auto

lemma startsWith_append [simp]: "startsWith (p @ t) p"
  by (simp add: startsWith_iff)

lemma digit_char_no_colon: "d < 10 \<Longrightarrow> digit_char d \<noteq> CHR '':''"
proof -
  assume "d < 10"
  then have "d \<in> {0, 1, 2, 3, 4, 5, 6, 7, 8, 9}" by auto
  then show ?thesis by (auto simp: digit_char_def)
qed

lemma show_nat_no_colon: "CHR '':'' \<notin> set (show_nat n)"
proof (induction n rule: show_nat.induct)
  case (1 n)
  show ?case
  proof (cases "n < 10")
    case True
    then show ?thesis using digit_char_no_colon [of n] by (subst show_nat.simps) simp
  next
    case False
    then have "CHR '':'' \<notin> set (show_nat (n div 10))" using 1 by simp
    moreover have "digit_char (n mod 10) \<noteq> CHR '':''" by (rule digit_char_no_colon) simp
    ultimately show ?thesis using False by (subst show_nat.simps) auto
  qed
qed

lemma generateId_no_colon: "CHR '':'' \<notin> set rnd \<Longrightarrow> CHR '':'' \<notin> set (generateId n rnd)"
  using show_nat_no_colon [of n] by (simp add: generateId_def)

lemma takeWhile_until:
  "c \<notin> set ys \<Longrightarrow> takeWhile (\<lambda>x. x \<noteq> c) (ys @ c # zs) = ys"
  by (induction ys) auto

lemma split_at_last_colon:
  assumes "a @ CHR '':'' # i = a' @ CHR '':'' # i'" "CHR '':'' \<notin> set i" "CHR '':'' \<notin> set i'"
  shows "a = a' \<and> i = i'"
proof -
  have "rev i @ CHR '':'' # rev a = rev i' @ CHR '':'' # rev a'"
    using arg_cong [OF assms(1), of rev] by simp
  then have "takeWhile (\<lambda>x. x \<noteq> CHR '':'') (rev i @ CHR '':'' # rev a)
           = takeWhile (\<lambda>x. x \<noteq> CHR '':'') (rev i' @ CHR '':'' # rev a')" by simp
  moreover have "takeWhile (\<lambda>x. x \<noteq> CHR '':'') (rev i @ CHR '':'' # rev a) = rev i"
    using assms(2) by (simp add: takeWhile_until)
  moreover have "takeWhile (\<lambda>x. x \<noteq> CHR '':'') (rev i' @ CHR '':'' # rev a') = rev i'"
    using assms(3) by (simp add: takeWhile_until)
  ultimately have "i = i'" by simp
  with assms(1) show ?thesis by simp
qed

lemma memory_key_inj:
  assumes "''memory:'' @ a @ '':'' @ i = ''memory:'' @ a' @ '':'' @ i'"
    "CHR '':'' \<notin> set i" "CHR '':'' \<notin> set i'"
  shows "a = a' \<and> i = i'"
  using assms split_at_last_colon [of a i a' i'] by simp

lemma map_of_map_set: "map_of (map_set k v kvs) = (map_of kvs)(k \<mapsto> v)"
  by (induction kvs) (auto simp: fun_eq_iff)

lemma keys_map_set: "fst ` set (map_set k v kvs) = insert k (fst ` set kvs)"
  by (induction k v kvs rule: map_set.induct) (simp_all add: insert_commute)

lemma distinct_map_set: "distinct (map fst kvs) \<Longrightarrow> distinct (map fst (map_set k v kvs))"
  by (induction k v kvs rule: map_set.induct) (auto simp: keys_map_set)

lemma dedup_from_filter:
  "filter (\<lambda>x. entry_id x = k) (dedup_from seen xs) =
     (if k \<in> seen then [] else take 1 (filter (\<lambda>x. entry_id x = k) xs))"
  by (induction xs arbitrary: seen) auto

lemma dedup_from_subset: "set (dedup_from seen xs) \<subseteq> set xs"
  by (induction xs arbitrary: seen) auto

lemma deduplicate_keeps_first:
  "filter (\<lambda>x. entry_id x = k) (deduplicateMemories xs) = take 1 (filter (\<lambda>x. entry_id x = k) xs)"
  by (simp add: deduplicateMemories_def dedup_from_filter)

lemma remember_all_snoc:
  "remember_all st (cs @ [c]) = fst (remember (remember_all st cs) (fst c) (fst (snd c)) (snd (snd c)))"
  by (induction cs arbitrary: st) simp_all


lemma remember_redis:
  "redis st = None \<Longrightarrow> redis (fst (remember st a m e)) = None"
  by (simp add: remember_def storeShortTerm_def storeLongTerm_def storeSemanticMemory_def Let_def
      split: option.splits sum.splits)

lemma remember_distinct_keys:
  "redis st = None \<Longrightarrow> distinct (map fst (inMemoryCache st))
   \<Longrightarrow> distinct (map fst (inMemoryCache (fst (remember st a m e))))"
  by (simp add: remember_def storeShortTerm_def storeLongTerm_def storeSemanticMemory_def Let_def
      distinct_map_set split: option.splits sum.splits)

lemma remember_lookup:
  assumes "redis st = None"
    and "map_of (inMemoryCache (fst (remember st a m e))) k = Some v"
  shows "map_of (inMemoryCache st) k = Some v
       \<or> v = MemoryV (fullMemory a m e)
       \<or> startsWith k ''semantic:''"
  using assms
  by (auto simp: remember_def storeShortTerm_def storeLongTerm_def storeSemanticMemory_def Let_def
      map_of_map_set fullMemory_def split: option.splits sum.splits if_splits)

lemma remember_lookup_own:
  assumes "redis st = None"
  shows "map_of (inMemoryCache (fst (remember st a m e)))
           (''memory:'' @ a @ '':'' @ generateId (e_idNow e) (e_random e))
         = Some (MemoryV (fullMemory a m e))"
  using assms
  by (simp add: remember_def storeShortTerm_def storeLongTerm_def storeSemanticMemory_def Let_def
      map_of_map_set fullMemory_def split: option.splits sum.splits)

lemma remember_lookup_other:
  assumes "redis st = None"
    and "k' \<noteq> a @ '':'' @ generateId (e_idNow e) (e_random e)"
  shows "map_of (inMemoryCache (fst (remember st a m e))) (''memory:'' @ k')
         = map_of (inMemoryCache st) (''memory:'' @ k')"
  using assms
  by (simp add: remember_def storeShortTerm_def storeLongTerm_def storeSemanticMemory_def Let_def
      map_of_map_set fullMemory_def split: option.splits sum.splits)

lemma call_id_full_of: "m_id (full_of c) = call_id c"
  by (simp add: full_of_def call_id_def fullMemory_def)

lemma remember_all_invariant:
  assumes "redis st = None" "inMemoryCache st = []"
    and "distinct (map call_id calls)"
    and "\<forall>c \<in> set calls. CHR '':'' \<notin> set (e_random (snd (snd c)))"
  shows "redis (remember_all st calls) = None
       \<and> distinct (map fst (inMemoryCache (remember_all st calls)))
       \<and> (\<forall>k v. map_of (inMemoryCache (remember_all st calls)) k = Some v \<longrightarrow>
             (\<exists>c \<in> set calls. v = MemoryV (full_of c)) \<or> startsWith k ''semantic:'')
       \<and> (\<forall>c \<in> set calls.
             map_of (inMemoryCache (remember_all st calls)) (''memory:'' @ fst c @ '':'' @ call_id c)
               = Some (MemoryV (full_of c)))"
  using assms(3,4)
proof (induction calls rule: rev_induct)
  case Nil
  then show ?case using assms(1,2) by simp
next
  case (snoc c cs)
  let ?s = "remember_all st cs"
  let ?s' = "remember_all st (cs @ [c])"
  have step: "?s' = fst (remember ?s (fst c) (fst (snd c)) (snd (snd c)))"
    by (rule remember_all_snoc)
  have ih: "redis ?s = None" "distinct (map fst (inMemoryCache ?s))"
    "\<And>k v. map_of (inMemoryCache ?s) k = Some v \<Longrightarrow>
        (\<exists>c \<in> set cs. v = MemoryV (full_of c)) \<or> startsWith k ''semantic:''"
    "\<And>d. d \<in> set cs \<Longrightarrow>
        map_of (inMemoryCache ?s) (''memory:'' @ fst d @ '':'' @ call_id d) = Some (MemoryV (full_of d))"
    using snoc by auto
  have fresh: "call_id c \<notin> call_id ` set cs"
    using snoc.prems(1) by auto
  have nocolon: "\<And>d. d \<in> set (cs @ [c]) \<Longrightarrow> CHR '':'' \<notin> set (call_id d)"
    using snoc.prems(2) by (auto simp: call_id_def intro!: generateId_no_colon)
  have full: "fullMemory (fst c) (fst (snd c)) (snd (snd c)) = full_of c"
    by (simp add: full_of_def)
  have cid: "generateId (e_idNow (snd (snd c))) (e_random (snd (snd c))) = call_id c"
    by (simp add: call_id_def)
  have 1: "redis ?s' = None"
    unfolding step using ih(1) by (rule remember_redis)
  have 2: "distinct (map fst (inMemoryCache ?s'))"
    unfolding step using ih(1,2) by (rule remember_distinct_keys)
  have 3: "(\<exists>d \<in> set (cs @ [c]). v = MemoryV (full_of d)) \<or> startsWith k ''semantic:''"
    if "map_of (inMemoryCache ?s') k = Some v" for k v
    using remember_lookup [OF ih(1) that [unfolded step]] ih(3) [of k v] full by auto
  have 4: "map_of (inMemoryCache ?s') (''memory:'' @ fst d @ '':'' @ call_id d) = Some (MemoryV (full_of d))"
    if "d \<in> set (cs @ [c])" for d
  proof (cases "d = c")
    case True
    then show ?thesis
      unfolding step using remember_lookup_own [OF ih(1), of "fst c" "fst (snd c)" "snd (snd c)"] full cid
      by simp
  next
    case False
    with that have d: "d \<in> set cs" by simp
    then have "call_id d \<noteq> call_id c" using fresh by (metis imageI)
    then have "fst d @ '':'' @ call_id d \<noteq> fst c @ '':'' @ call_id c"
      using split_at_last_colon [of "fst d" "call_id d" "fst c" "call_id c"] nocolon [of d] nocolon [of c] d
      by auto
    then show ?thesis
      unfolding step
      using remember_lookup_other [OF ih(1), of "fst d @ '':'' @ call_id d" "fst c" "snd (snd c)" "fst (snd c)"]
        ih(4) [OF d] cid
      by simp
  qed
  from 1 2 3 4 show ?case by blast
qed

subsection \<open>Round trip through \<open>remember\<close> and \<open>recall\<close>, in process\<close>

lemma sort_newest_first_filter:
  assumes "list_all has_time ys" "filter P ys = [x]"
  shows "\<exists>ms. sort_newest_first ys = Inr ms \<and> filter P ms = [x]"
  using assms by (simp add: sort_newest_first_def filter_sort)

lemma take_one_filter_append:
  assumes "x \<in> set ys" "P x" "\<forall>y \<in> set ys. P y \<longrightarrow> y = x"
  shows "take 1 (filter P (ys @ zs)) = [x]"
proof -
  from assms(1,2) have ne: "filter P ys \<noteq> []"
    by (auto simp: filter_empty_conv)
  then obtain y rest where f: "filter P ys = y # rest"
    by (cases "filter P ys") auto
  then have "y \<in> set (filter P ys)" by simp
  then have "y = x" using assms(3) by auto
  with f show ?thesis by simp
qed

lemma memory_key_not_semantic:
  "startsWith k (''memory:'' @ t) \<Longrightarrow> \<not> startsWith k ''semantic:''"
  by (auto simp: startsWith_iff)

lemma longterm_key_not_semantic:
  "startsWith k (''longterm:'' @ t) \<Longrightarrow> \<not> startsWith k ''semantic:''"
  by (auto simp: startsWith_iff)

lemma has_time_full_of: "has_time (MemoryV (full_of c))"
  by (simp add: full_of_def fullMemory_def)

lemma has_time_row: "has_time (MemoryV (row_to_memory r))"
  by (simp add: row_to_memory_def)

lemma matchesQuery_no_filter: "q_type q = None \<Longrightarrow> q_since q = None \<Longrightarrow> matchesQuery v q"
  by (simp add: matchesQuery_def)

text \<open>
  The in-process branch keeps what C1 asks for, as long as no timer has run. Without a
  Redis client, start from an empty cache and run any sequence of \<open>remember\<close> calls, for
  any agents, whose generated ids are pairwise distinct (the random suffix, being base 36,
  has no colon). Then \<open>recall\<close> for an agent, without \<open>type\<close> or \<open>since\<close> and with any
  limit, returns a list, and for each call made for that agent the list has exactly one
  entry with the id of that call: the memory built by the call, whose \<open>type\<close>,
  \<open>content\<close> and \<open>confidence\<close> are those passed in.
\<close>

lemma in_process_round_trip:
  assumes st: "redis st = None" "inMemoryCache st = []"
    and ids: "distinct (map call_id calls)"
    and rnd: "list_all (\<lambda>c. CHR '':'' \<notin> set (e_random (snd (snd c)))) calls"
    and call: "(agentId, memory, env) \<in> set calls"
    and q: "q_type q = None" "q_since q = None"
  shows "\<exists>ms. recall (remember_all st calls) agentId q = Inr ms
           \<and> filter (\<lambda>x. entry_id x = Some (call_id (agentId, memory, env))) ms
               = [MemoryV (fullMemory agentId memory env)]
           \<and> m_type (fullMemory agentId memory env) = in_type memory
           \<and> m_content (fullMemory agentId memory env) = in_content memory
           \<and> m_confidence (fullMemory agentId memory env) = in_confidence memory"
proof -
  let ?s = "remember_all st calls"
  let ?C = "inMemoryCache ?s"
  let ?c = "(agentId, memory, env)"
  let ?X = "MemoryV (full_of ?c)"
  let ?P = "\<lambda>x. entry_id x = Some (call_id ?c)"
  have rnd': "\<forall>c \<in> set calls. CHR '':'' \<notin> set (e_random (snd (snd c)))"
    using rnd by (simp add: list_all_iff)
  note inv = remember_all_invariant [OF st ids rnd']
  from inv have redis: "redis ?s = None" and dist: "distinct (map fst ?C)"
    and vals: "\<And>k v. map_of ?C k = Some v \<Longrightarrow>
                 (\<exists>c \<in> set calls. v = MemoryV (full_of c)) \<or> startsWith k ''semantic:''"
    and own: "map_of ?C (''memory:'' @ agentId @ '':'' @ call_id ?c) = Some ?X"
    using call by auto
  let ?short = "cache_scan (''memory:'' @ agentId @ '':'') q ?C"
  have short: "queryShortTerm ?s agentId q = ?short"
    using redis by (simp add: queryShortTerm_def)
  have mem_vals: "\<exists>c \<in> set calls. x = MemoryV (full_of c)"
    if "x \<in> set (cache_scan (''memory:'' @ t) q ?C)" for x t
  proof -
    from that obtain k where kv: "(k, x) \<in> set ?C" and k: "startsWith k (''memory:'' @ t)"
      by (auto simp: cache_scan_def)
    from kv dist have "map_of ?C k = Some x" by simp
    from vals [OF this] memory_key_not_semantic [OF k] show ?thesis by simp
  qed
  have lt_vals: "\<exists>c \<in> set calls. x = MemoryV (full_of c)"
    if "x \<in> set (cache_scan (''longterm:'' @ t) q ?C)" for x t
  proof -
    from that obtain k where kv: "(k, x) \<in> set ?C" and k: "startsWith k (''longterm:'' @ t)"
      by (auto simp: cache_scan_def)
    from kv dist have "map_of ?C k = Some x" by simp
    from vals [OF this] longterm_key_not_semantic [OF k] show ?thesis by simp
  qed
  have X_in: "?X \<in> set ?short"
  proof -
    have "(''memory:'' @ agentId @ '':'' @ call_id ?c, ?X) \<in> set ?C"
      using own by (rule map_of_SomeD)
    moreover have "startsWith (''memory:'' @ agentId @ '':'' @ call_id ?c) (''memory:'' @ agentId @ '':'')"
      using startsWith_append [of "''memory:'' @ agentId @ '':''" "call_id ?c"] by simp
    ultimately show ?thesis
      using matchesQuery_no_filter [OF q] by (force simp: cache_scan_def)
  qed
  have PX: "?P ?X" by (simp add: call_id_full_of)
  have only: "\<forall>y \<in> set ?short. ?P y \<longrightarrow> y = ?X"
  proof (intro ballI impI)
    fix y assume y: "y \<in> set ?short" and Py: "?P y"
    from mem_vals [OF y] obtain d where d: "d \<in> set calls" "y = MemoryV (full_of d)"
      by blast
    with Py have "call_id d = call_id ?c" by (simp add: call_id_full_of)
    with ids d(1) call have "d = ?c"
      by (meson distinct_map inj_onD)
    with d(2) show "y = ?X" by simp
  qed
  have short_time: "list_all has_time ?short"
    unfolding list_all_iff
  proof
    fix x assume "x \<in> set ?short"
    from mem_vals [OF this] obtain d where "x = MemoryV (full_of d)" by blast
    then show "has_time x" using has_time_full_of by blast
  qed
  have long_time: "list_all has_time (queryLongTerm ?s agentId q)"
  proof (cases "supabase ?s")
    case None
    then have eq: "queryLongTerm ?s agentId q = cache_scan (''longterm:'' @ agentId @ '':'') q ?C"
      by (simp add: queryLongTerm_def)
    show ?thesis
      unfolding eq list_all_iff
    proof
      fix x assume "x \<in> set (cache_scan (''longterm:'' @ agentId @ '':'') q ?C)"
      from lt_vals [OF this] obtain d where "x = MemoryV (full_of d)" by blast
      then show "has_time x" using has_time_full_of by blast
    qed
  next
    case (Some db)
    show ?thesis
      unfolding list_all_iff
    proof
      fix x assume "x \<in> set (queryLongTerm ?s agentId q)"
      with Some obtain r where "x = MemoryV (row_to_memory r)"
        by (auto simp: queryLongTerm_def split: sum.splits)
      then show "has_time x" using has_time_row by blast
    qed
  qed
  define ys where "ys = (if length ?short < limit_or q 10 \<and> longTerm (config ?s) \<noteq> None
                         then ?short @ queryLongTerm ?s agentId q else ?short)"
  have ys_time: "list_all has_time ys"
    using short_time long_time by (simp add: ys_def del: has_time.simps)
  have "take 1 (filter ?P ys) = [?X]"
    using take_one_filter_append [of ?X ?short ?P, OF X_in PX only]
      take_one_filter_append [of ?X ?short ?P "[]", OF X_in PX only]
    by (simp add: ys_def)
  then have dd: "filter ?P (deduplicateMemories ys) = [?X]"
    by (simp add: deduplicate_keeps_first)
  have dd_time: "list_all has_time (deduplicateMemories ys)"
    using ys_time dedup_from_subset [of "{}" ys]
    unfolding list_all_iff deduplicateMemories_def by blast
  have rec: "recall ?s agentId q = sort_newest_first (deduplicateMemories ys)"
    using q short by (auto simp: recall_def ys_def Let_def)
  from sort_newest_first_filter [OF dd_time dd] obtain ms
    where "sort_newest_first (deduplicateMemories ys) = Inr ms" "filter ?P ms = [?X]" by blast
  with rec have "recall ?s agentId q = Inr ms \<and> filter ?P ms = [MemoryV (fullMemory agentId memory env)]"
    by (simp add: full_of_def)
  then show ?thesis
    by (auto simp: fullMemory_def)
qed

text \<open>
  For instance \<open>three_calls\<close>: \<open>recall\<close> for agent \<open>a\<close> returns its two memories, each
  once, although each sits in the cache under two keys.
\<close>

lemma in_process_round_trip_example:
  "map_sum id (map entry_id) (recall two_agents ''a'' no_filter)
     = Inr [Some ''mem_3_z'', Some ''mem_1_x'']
   \<and> filter (\<lambda>x. entry_id x = Some ''mem_1_x'') (projr (recall two_agents ''a'' no_filter))
     = [MemoryV (fullMemory ''a'' (payload ''a'' Transaction 1) (env_at 1 ''x''))]"
  using in_process_round_trip [of "initialize supabase_config redis_empty None" three_calls
      "''a''" "payload ''a'' Transaction 1" "env_at 1 ''x''" no_filter]
  by (simp add: two_agents_def three_calls_def call_id_def manager_defs scenario_defs)

subsection \<open>The counters, the index and the pattern rows in general\<close>

text \<open>
  What the scenarios of C3, C8 and C9 show at one input holds at every input: without
  Redis the short-term count is 0; a write through Redis leaves up to \<open>maxItems + 1\<close>
  ids in the index; the in-process pattern counters are incremented, while the row that
  Supabase holds after an \<open>upsert\<close> carries the submitted frequency.
\<close>

lemma getStats_shortTermCount_no_redis:
  "redis st = None \<Longrightarrow> shortTermCount (getStats st agentId) = 0"
  by (simp add: getStats_def Let_def split: option.splits)

lemma getStats_shortTermCount_redis:
  "redis st = Some r \<Longrightarrow> shortTermCount (getStats st agentId) = llen (''memories:'' @ agentId) r"
  by (simp add: getStats_def Let_def split: option.splits)

lemma storeShortTerm_index_length:
  assumes "redis st = Some r" "shortTerm_maxItems (config st) = Some n" "0 < n"
  shows "map_option (llen (''memories:'' @ m_agentId m)) (redis (storeShortTerm m st))
           = Some (min (Suc (llen (''memories:'' @ m_agentId m) r)) (Suc n))"
  using assms
  by (simp add: storeShortTerm_def Let_def llen_def ltrim_def lpush_def setex_def min_def)

lemma updatePattern_in_process_increments:
  assumes "supabase st = None"
    and "map_get (''pattern:'' @ agentId @ '':'' @ p) (inMemoryCache st) = Some (PatternV f s)"
  shows "map_get (''pattern:'' @ agentId @ '':'' @ p) (inMemoryCache (updatePattern st agentId p succ now))
           = Some (PatternV (Suc f) (if succ then Suc s else s))"
  using assms by (simp add: updatePattern_def map_get_def map_of_map_set)

lemma upsert_pattern_row_frequency:
  "\<exists>r \<in> set (upsert_pattern_row a sig f sr upd rows).
      pr_agent_id r = a \<and> pr_pattern_signature r = sig \<and> pr_frequency r = f \<and> pr_success_rate r = sr"
  by (induction rows) auto

text \<open>An unavailable Supabase contributes nothing to \<open>recall\<close>.\<close>

lemma queryLongTerm_unavailable:
  "supabase st = Some db \<Longrightarrow> \<not> available db \<Longrightarrow> queryLongTerm st agentId q = []"
  by (simp add: queryLongTerm_def sb_select_memories_def)

text \<open>
  Deduplication and sorting together: whenever the sort returns, each id that occurs at
  the top of some merged entry is kept once, with its first entry in the order short-term,
  long-term, semantic.
\<close>

lemma sort_key_at_most_one: "length xs \<le> 1 \<Longrightarrow> sort_key f xs = xs"
  by (cases xs) auto

lemma dedup_sort_keeps_first:
  assumes "sort_newest_first (deduplicateMemories ys) = Inr xs"
  shows "filter (\<lambda>x. entry_id x = k) xs = take 1 (filter (\<lambda>x. entry_id x = k) ys)"
proof -
  let ?P = "\<lambda>x. entry_id x = k"
  let ?dd = "deduplicateMemories ys"
  have first: "filter ?P ?dd = take 1 (filter ?P ys)"
    by (rule deduplicate_keeps_first)
  from assms consider "xs = ?dd" | "xs = sort_key (\<lambda>x. - time_value x) ?dd"
    by (auto simp: sort_newest_first_def split: if_splits)
  then show ?thesis
  proof cases
    case 1
    with first show ?thesis by simp
  next
    case 2
    then have "filter ?P xs = sort_key (\<lambda>x. - time_value x) (take 1 (filter ?P ys))"
      by (simp add: filter_sort first)
    then show ?thesis by (simp add: sort_key_at_most_one)
  qed
qed

subsection \<open>Timers\<close>

text \<open>
  An entry written by the in-process branch is gone once its timer has run. The timer
  is due after \<open>ttl * 1000\<close> milliseconds, or after 1 millisecond when that number is
  beyond what \<open>setTimeout\<close> accepts: with a time-to-live of 3000000 seconds the memory is
  gone a millisecond later.
\<close>

lemma map_of_filter_out:
  "k \<in> K \<Longrightarrow> map_of (filter (\<lambda>kv. fst kv \<notin> K) kvs) k = None"
  by (induction kvs) auto

lemma storeShortTerm_entry_expires:
  assumes "redis st = None"
  shows "map_get (''memory:'' @ m_agentId m @ '':'' @ m_id m)
           (inMemoryCache (run_timers (timeout_delay (shortTerm_ttl (config st) * 1000))
                             (storeShortTerm m st))) = None"
proof -
  let ?key = "''memory:'' @ m_agentId m @ '':'' @ m_id m"
  let ?d = "timeout_delay (shortTerm_ttl (config st) * 1000)"
  let ?st = "storeShortTerm m st"
  have "timers ?st = timers st @ [(?d, ?key)]"
    using assms by (simp add: storeShortTerm_def Let_def)
  then have "?key \<in> set (map snd (filter (\<lambda>t. fst t \<le> ?d) (timers ?st)))"
    by simp
  then have "map_of (filter (\<lambda>kv. fst kv \<notin> set (map snd (filter (\<lambda>t. fst t \<le> ?d) (timers ?st))))
                      (inMemoryCache ?st)) ?key = None"
    by (rule map_of_filter_out)
  then show ?thesis
    by (simp add: run_timers_def map_get_def)
qed

lemma long_ttl_gone_after_one_millisecond:
  "map_sum id length (recall long_ttl ''a'' no_filter) = Inr 1
   \<and> recall (run_timers 1 long_ttl) ''a'' no_filter = Inr []"
  by (simp add: long_ttl_def run_timers_def timeout_delay_def manager_defs scenario_defs)

end
